theory Spec2Isabelle
  imports Complex_Main "HOL-Library.AList"
begin

section \<open>Yield curve simulation: the two transforms of app.py\<close>

text \<open>
  The program works on Python floats. They are modelled as exact reals extended by the
  three IEEE special values, so that the infinite cap sentinels and non-finite inputs
  are values of the model. Arithmetic on finite values is exact: binary rounding error
  and overflow are not modelled. A Python dict is an association list in insertion
  order; a well-formed dict has distinct keys.
\<close>

subsection \<open>Floats\<close>

datatype pyfloat = Fin real | PInf | NInf | NaN

fun is_fin :: "pyfloat \<Rightarrow> bool" where
  "is_fin (Fin _) = True"
| "is_fin _ = False"

fun fneg :: "pyfloat \<Rightarrow> pyfloat" where
  "fneg (Fin a) = Fin (- a)"
| "fneg PInf = NInf"
| "fneg NInf = PInf"
| "fneg NaN = NaN"

fun fadd :: "pyfloat \<Rightarrow> pyfloat \<Rightarrow> pyfloat" where
  "fadd (Fin a) (Fin b) = Fin (a + b)"
| "fadd NaN _ = NaN"
| "fadd _ NaN = NaN"
| "fadd PInf NInf = NaN"
| "fadd NInf PInf = NaN"
| "fadd PInf _ = PInf"
| "fadd _ PInf = PInf"
| "fadd NInf _ = NInf"
| "fadd _ NInf = NInf"

definition fsub :: "pyfloat \<Rightarrow> pyfloat \<Rightarrow> pyfloat" where
  "fsub a b = fadd a (fneg b)"

fun fmul :: "pyfloat \<Rightarrow> pyfloat \<Rightarrow> pyfloat" where
  "fmul (Fin a) (Fin b) = Fin (a * b)"
| "fmul NaN _ = NaN"
| "fmul _ NaN = NaN"
| "fmul (Fin a) PInf = (if a = 0 then NaN else if 0 < a then PInf else NInf)"
| "fmul (Fin a) NInf = (if a = 0 then NaN else if 0 < a then NInf else PInf)"
| "fmul PInf (Fin b) = (if b = 0 then NaN else if 0 < b then PInf else NInf)"
| "fmul NInf (Fin b) = (if b = 0 then NaN else if 0 < b then NInf else PInf)"
| "fmul PInf PInf = PInf"
| "fmul NInf NInf = PInf"
| "fmul PInf NInf = NInf"
| "fmul NInf PInf = NInf"

text \<open>The comparisons \<open><\<close> and \<open><=\<close> of Python floats: every comparison with NaN is false.\<close>

fun flt :: "pyfloat \<Rightarrow> pyfloat \<Rightarrow> bool" where
  "flt (Fin a) (Fin b) = (a < b)"
| "flt NaN _ = False"
| "flt _ NaN = False"
| "flt NInf NInf = False"
| "flt NInf _ = True"
| "flt PInf _ = False"
| "flt _ PInf = True"
| "flt _ NInf = False"

fun fle :: "pyfloat \<Rightarrow> pyfloat \<Rightarrow> bool" where
  "fle (Fin a) (Fin b) = (a \<le> b)"
| "fle NaN _ = False"
| "fle _ NaN = False"
| "fle NInf _ = True"
| "fle _ PInf = True"
| "fle PInf _ = False"
| "fle _ NInf = False"

text \<open>
  Python's \<open>max(a, b)\<close> keeps \<open>a\<close> unless \<open>b > a\<close>, and \<open>min(a, b)\<close> keeps \<open>a\<close>
  unless \<open>b < a\<close>.
\<close>

definition py_max :: "pyfloat \<Rightarrow> pyfloat \<Rightarrow> pyfloat" where
  "py_max a b = (if flt a b then b else a)"

definition py_min :: "pyfloat \<Rightarrow> pyfloat \<Rightarrow> pyfloat" where
  "py_min a b = (if flt b a then b else a)"

text \<open>
  \<open>round(x, n)\<close>: the nearest multiple of \<open>10^-n\<close>, a tie going to the even one; the
  special values are returned unchanged.
\<close>

definition round_half_even :: "real \<Rightarrow> int" where
  "round_half_even x =
     (let f = \<lfloor>x\<rfloor>; d = x - of_int f
      in if d < 1 / 2 then f
         else if 1 / 2 < d then f + 1
         else if even f then f else f + 1)"

fun py_round :: "pyfloat \<Rightarrow> nat \<Rightarrow> pyfloat" where
  "py_round (Fin x) n = Fin (of_int (round_half_even (x * 10 ^ n)) / 10 ^ n)"
| "py_round v n = v"

subsection \<open>Dicts and errors\<close>

datatype error = KeyError | ValueError

definition bnd :: "error + 'a \<Rightarrow> ('a \<Rightarrow> error + 'b) \<Rightarrow> error + 'b" where
  "bnd m f = (case m of Inl e \<Rightarrow> Inl e | Inr v \<Rightarrow> f v)"

type_synonym ('k, 'v) dict = "('k \<times> 'v) list"

text \<open>\<open>d[k]\<close> raises KeyError on a missing key; \<open>d[k] = v\<close> is \<^const>\<open>AList.update\<close>.\<close>

definition dict_get :: "('k, 'v) dict \<Rightarrow> 'k \<Rightarrow> error + 'v" where
  "dict_get d k = (case map_of d k of None \<Rightarrow> Inl KeyError | Some v \<Rightarrow> Inr v)"

type_synonym curve = "(string, pyfloat) dict"

definition tenor_to_years :: "(string, pyfloat) dict" where
  "tenor_to_years =
     [(''3M'', Fin (1 / 4)), (''6M'', Fin (1 / 2)), (''1Y'', Fin 1), (''2Y'', Fin 2),
      (''3Y'', Fin 3), (''4Y'', Fin 4), (''5Y'', Fin 5), (''7Y'', Fin 7)]"

subsection \<open>simulate_yield_curve\<close>

definition simulate_new_rate ::
  "string \<Rightarrow> pyfloat \<Rightarrow> pyfloat \<Rightarrow> pyfloat \<Rightarrow> pyfloat \<Rightarrow> pyfloat \<Rightarrow> pyfloat \<Rightarrow> pyfloat \<Rightarrow>
   string \<Rightarrow> pyfloat \<Rightarrow> pyfloat \<Rightarrow> pyfloat" where
  "simulate_new_rate pivot_tenor pivot_year pivot_rate shift_value short_end_factor
       long_end_factor short_end_cap long_end_cap tenor t_year original_rate =
     (let delta_years = fsub t_year pivot_year
      in if tenor = pivot_tenor then fadd pivot_rate shift_value
         else if flt t_year pivot_year then
           (let raw_change = fadd shift_value (fmul delta_years short_end_factor);
                capped_change = py_max raw_change short_end_cap
            in fadd original_rate capped_change)
         else
           (let raw_change = fadd shift_value (fmul delta_years long_end_factor);
                capped_change = py_min raw_change long_end_cap
            in fadd original_rate capped_change))"

text \<open>The loop over \<open>base_curve.items()\<close>, with the dict being built as its state.\<close>

fun simulate_loop ::
  "string \<Rightarrow> pyfloat \<Rightarrow> pyfloat \<Rightarrow> pyfloat \<Rightarrow> pyfloat \<Rightarrow> pyfloat \<Rightarrow> pyfloat \<Rightarrow> pyfloat \<Rightarrow>
   (string \<times> pyfloat) list \<Rightarrow> curve \<Rightarrow> error + curve" where
  "simulate_loop pt py pr sv sf lf sc lc [] simulated_curve = Inr simulated_curve"
| "simulate_loop pt py pr sv sf lf sc lc ((tenor, original_rate) # items) simulated_curve =
     bnd (dict_get tenor_to_years tenor) (\<lambda>t_year.
       simulate_loop pt py pr sv sf lf sc lc items
         (AList.update tenor
            (py_round (simulate_new_rate pt py pr sv sf lf sc lc tenor t_year original_rate) 6)
            simulated_curve))"

definition simulate_yield_curve ::
  "curve \<Rightarrow> string \<Rightarrow> pyfloat \<Rightarrow> pyfloat \<Rightarrow> pyfloat \<Rightarrow> pyfloat \<Rightarrow> pyfloat \<Rightarrow> error + curve" where
  "simulate_yield_curve base_curve pivot_tenor shift_value short_end_factor long_end_factor
       short_end_cap long_end_cap =
     bnd (dict_get tenor_to_years pivot_tenor) (\<lambda>pivot_year.
     bnd (dict_get base_curve pivot_tenor) (\<lambda>pivot_rate.
       simulate_loop pivot_tenor pivot_year pivot_rate shift_value short_end_factor
         long_end_factor short_end_cap long_end_cap base_curve []))"

subsection \<open>The regression of reverse_engineer_factors\<close>

fun finite_vals :: "pyfloat list \<Rightarrow> error + real list" where
  "finite_vals [] = Inr []"
| "finite_vals (Fin x # vs) = bnd (finite_vals vs) (\<lambda>xs. Inr (x # xs))"
| "finite_vals (_ # vs) = Inl ValueError"

definition mean :: "real list \<Rightarrow> real" where
  "mean xs = sum_list xs / real (length xs)"

definition ols_slope :: "real list \<Rightarrow> real list \<Rightarrow> real" where
  "ols_slope xs ys =
     (let mx = mean xs; my = mean ys;
          sxx = sum_list (map (\<lambda>x. (x - mx) * (x - mx)) xs);
          sxy = sum_list (map (\<lambda>(x, y). (x - mx) * (y - my)) (zip xs ys))
      in if sxx = 0 then 0 else sxy / sxx)"

text \<open>
  Modelled from the spec: \<open>LinearRegression().fit(X, y).coef_[0]\<close> of scikit-learn, a
  library outside the repository. Section 4.3 step 3 of the specification describes it as
  an ordinary least squares line with one predictor and an intercept, whose slope is the
  factor. The library validates its input first and raises ValueError on an empty sample
  and on a NaN or infinite entry; a sample whose predictor does not vary gets the
  minimum-norm solution, slope 0. The one-column matrix \<open>X\<close> is the list of its entries.
\<close>

definition LinearRegression_fit_coef :: "pyfloat list \<Rightarrow> pyfloat list \<Rightarrow> error + pyfloat" where
  "LinearRegression_fit_coef X y =
     (if X = [] then Inl ValueError
      else bnd (finite_vals X) (\<lambda>xs.
           bnd (finite_vals y) (\<lambda>ys. Inr (Fin (ols_slope xs ys)))))"

subsection \<open>reverse_engineer_factors\<close>

record recovered_factors =
  pivot_tenor :: string
  shift_value :: pyfloat
  short_end_factor :: pyfloat
  long_end_factor :: pyfloat
  short_end_cap :: pyfloat
  long_end_cap :: pyfloat

text \<open>
  The function has its own copy of the tenor table, with the same contents as the global
  one; \<^const>\<open>tenor_to_years\<close> stands for both.
\<close>

text \<open>
  First loop: the regression data \<open>(short_x, short_y, long_x, long_y)\<close>. The loop reads
  \<open>base_rate = base_curve[tenor]\<close> and does not use it.
\<close>

fun regression_loop ::
  "curve \<Rightarrow> curve \<Rightarrow> string \<Rightarrow> pyfloat \<Rightarrow> pyfloat \<Rightarrow> pyfloat \<Rightarrow> string list \<Rightarrow>
   pyfloat list \<times> pyfloat list \<times> pyfloat list \<times> pyfloat list \<Rightarrow>
   error + (pyfloat list \<times> pyfloat list \<times> pyfloat list \<times> pyfloat list)" where
  "regression_loop base_curve simulated_curve pt pivot_year base_pivot_rate sv [] acc = Inr acc"
| "regression_loop base_curve simulated_curve pt pivot_year base_pivot_rate sv (tenor # tenors)
       (short_x, short_y, long_x, long_y) =
     (if tenor = pt then
        regression_loop base_curve simulated_curve pt pivot_year base_pivot_rate sv tenors
          (short_x, short_y, long_x, long_y)
      else
        bnd (dict_get tenor_to_years tenor) (\<lambda>t_year.
        bnd (dict_get base_curve tenor) (\<lambda>base_rate.
        bnd (dict_get simulated_curve tenor) (\<lambda>sim_rate.
          (let delta_years = fsub t_year pivot_year;
               implied_change = fsub sim_rate (fadd base_pivot_rate sv)
           in regression_loop base_curve simulated_curve pt pivot_year base_pivot_rate sv tenors
                (if flt t_year pivot_year
                 then (short_x @ [delta_years], short_y @ [implied_change], long_x, long_y)
                 else (short_x, short_y, long_x @ [delta_years], long_y @ [implied_change])))))))"

text \<open>
  Second loop: the dict \<open>changes\<close>, keyed by year fraction. The loop also computes
  \<open>predicted_change\<close>, which nothing reads; it is left out.
\<close>

fun changes_loop ::
  "curve \<Rightarrow> string \<Rightarrow> pyfloat \<Rightarrow> string list \<Rightarrow> (pyfloat, pyfloat) dict \<Rightarrow>
   error + (pyfloat, pyfloat) dict" where
  "changes_loop simulated_curve pt base_pivot_rate [] changes = Inr changes"
| "changes_loop simulated_curve pt base_pivot_rate (tenor # tenors) changes =
     (if tenor = pt then changes_loop simulated_curve pt base_pivot_rate tenors changes
      else
        bnd (dict_get tenor_to_years tenor) (\<lambda>t_year.
        bnd (dict_get simulated_curve tenor) (\<lambda>sim_rate.
          (let actual_change = fsub sim_rate base_pivot_rate
           in changes_loop simulated_curve pt base_pivot_rate tenors
                (AList.update t_year actual_change changes)))))"

text \<open>\<open>d[k] += 1\<close> on a \<open>defaultdict(int)\<close>.\<close>

definition incr :: "(pyfloat, nat) dict \<Rightarrow> pyfloat \<Rightarrow> (pyfloat, nat) dict" where
  "incr d k = AList.update k ((case map_of d k of None \<Rightarrow> 0 | Some c \<Rightarrow> c) + 1) d"

text \<open>Third loop: the counts \<open>(short_changes, long_changes)\<close> of the rounded changes.\<close>

fun count_loop ::
  "pyfloat \<Rightarrow> (pyfloat \<times> pyfloat) list \<Rightarrow> (pyfloat, nat) dict \<times> (pyfloat, nat) dict \<Rightarrow>
   (pyfloat, nat) dict \<times> (pyfloat, nat) dict" where
  "count_loop pivot_year [] acc = acc"
| "count_loop pivot_year ((key, change) # items) (short_changes, long_changes) =
     count_loop pivot_year items
       (if flt key pivot_year then (incr short_changes (py_round change 8), long_changes)
        else if flt pivot_year key then (short_changes, incr long_changes (py_round change 8))
        else (short_changes, long_changes))"

text \<open>\<open>next((val for val, count in d.items() if count > 1), default)\<close>.\<close>

definition next_repeated :: "(pyfloat, nat) dict \<Rightarrow> pyfloat \<Rightarrow> pyfloat" where
  "next_repeated d dflt =
     (case find (\<lambda>(val, count). 1 < count) d of None \<Rightarrow> dflt | Some (val, count) \<Rightarrow> val)"

definition reverse_engineer_factors :: "curve \<Rightarrow> curve \<Rightarrow> string \<Rightarrow> error + recovered_factors" where
  "reverse_engineer_factors base_curve simulated_curve pt =
     bnd (dict_get tenor_to_years pt) (\<lambda>pivot_year.
     bnd (dict_get base_curve pt) (\<lambda>base_pivot_rate.
     bnd (dict_get simulated_curve pt) (\<lambda>sim_pivot_rate.
       (let sv = fsub sim_pivot_rate base_pivot_rate
        in bnd (regression_loop base_curve simulated_curve pt pivot_year base_pivot_rate sv
                  (map fst base_curve) ([], [], [], []))
             (\<lambda>(short_x, short_y, long_x, long_y).
           bnd (if short_x \<noteq> [] then bnd (LinearRegression_fit_coef short_x short_y) (\<lambda>c. Inr (Some c))
                else Inr None) (\<lambda>short_model.
           bnd (if long_x \<noteq> [] then bnd (LinearRegression_fit_coef long_x long_y) (\<lambda>c. Inr (Some c))
                else Inr None) (\<lambda>long_model.
             (let sf = (case short_model of Some c \<Rightarrow> c | None \<Rightarrow> Fin 0);
                  lf = (case long_model of Some c \<Rightarrow> c | None \<Rightarrow> Fin 0)
              in bnd (changes_loop simulated_curve pt base_pivot_rate (map fst base_curve) [])
                   (\<lambda>changes.
                 (let (short_changes, long_changes) = count_loop pivot_year changes ([], []);
                      sc = next_repeated short_changes NInf;
                      lc = next_repeated long_changes PInf
                  in Inr \<lparr>pivot_tenor = pt,
                          shift_value = py_round sv 6,
                          short_end_factor = py_round sf 6,
                          long_end_factor = py_round lf 6,
                          short_end_cap = py_round sc 6,
                          long_end_cap = py_round lc 6\<rparr>))))))))))"

section \<open>Vocabulary of the statements\<close>

subsection \<open>Curves over the grid\<close>

definition grid_tenors :: "string list" where
  "grid_tenors = map fst tenor_to_years"

text \<open>A curve over the grid: a dict (distinct keys) whose keys are exactly the grid tenors.\<close>

definition total_curve :: "curve \<Rightarrow> bool" where
  "total_curve c \<longleftrightarrow> distinct (map fst c) \<and> set (map fst c) = set grid_tenors"

text \<open>A curve whose rates are real numbers.\<close>

definition finite_curve :: "curve \<Rightarrow> bool" where
  "finite_curve c \<longleftrightarrow> list_all (\<lambda>(k, v). is_fin v) c"

text \<open>A flat curve: over the grid, with the rate \<open>b\<close> at every tenor.\<close>

definition flat_base :: "curve \<Rightarrow> real \<Rightarrow> bool" where
  "flat_base c b \<longleftrightarrow> total_curve c \<and> list_all (\<lambda>(k, v). v = Fin b) c"

text \<open>
  The year fraction of a grid tenor and the rate of a curve at a tenor it has, as a float
  and as a real number.
\<close>

definition year_of :: "string \<Rightarrow> pyfloat" where
  "year_of t = the (map_of tenor_to_years t)"

definition rate_of :: "curve \<Rightarrow> string \<Rightarrow> pyfloat" where
  "rate_of c t = the (map_of c t)"

fun real_of :: "pyfloat \<Rightarrow> real" where
  "real_of (Fin x) = x"
| "real_of _ = 0"

definition yr :: "string \<Rightarrow> real" where
  "yr t = real_of (year_of t)"

text \<open>
  The tenors of the base curve with a year fraction strictly below, and strictly above,
  the pivot's, in the iteration order of the base curve.
\<close>

definition short_tenors :: "curve \<Rightarrow> string \<Rightarrow> string list" where
  "short_tenors base_curve pt = filter (\<lambda>t. flt (year_of t) (year_of pt)) (map fst base_curve)"

definition long_tenors :: "curve \<Rightarrow> string \<Rightarrow> string list" where
  "long_tenors base_curve pt = filter (\<lambda>t. flt (year_of pt) (year_of t)) (map fst base_curve)"

subsection \<open>The cap detection in the words of the specification\<close>

text \<open>
  The first value of a list, in its order, that occurs in it more than once. The program
  finds it through a dict of counts; \<open>uniq\<close> (the first occurrences, in order) and
  \<open>count_dict\<close> describe that dict.
\<close>

definition first_repeated :: "'a list \<Rightarrow> 'a option" where
  "first_repeated vals = find (\<lambda>v. 1 < count_list vals v) vals"

definition uniq :: "'a list \<Rightarrow> 'a list" where
  "uniq xs = rev (remdups (rev xs))"

definition count_dict :: "'a list \<Rightarrow> ('a \<times> nat) list" where
  "count_dict xs = map (\<lambda>v. (v, count_list xs v)) (uniq xs)"

subsection \<open>Rounding and tolerance\<close>

text \<open>
  A real number that \<open>round(x, 6)\<close> leaves unchanged, and a float within \<open>1e-6\<close> of a
  real number.
\<close>

definition exact6 :: "real \<Rightarrow> bool" where
  "exact6 x \<longleftrightarrow> py_round (Fin x) 6 = Fin x"

definition close_to :: "pyfloat \<Rightarrow> real \<Rightarrow> bool" where
  "close_to v x \<longleftrightarrow> (case v of Fin y \<Rightarrow> \<bar>y - x\<bar> \<le> 1 / 10 ^ 6 | _ \<Rightarrow> False)"

text \<open>
  The rate that \<^const>\<open>simulate_new_rate\<close> computes, before rounding, at the tenor \<open>t\<close> of
  a flat curve when the caps are \<open>-inf\<close> and \<open>+inf\<close> (lemma \<open>flat_new_rate\<close> below).
\<close>

definition sim_value :: "real \<Rightarrow> real \<Rightarrow> real \<Rightarrow> real \<Rightarrow> string \<Rightarrow> string \<Rightarrow> real" where
  "sim_value b s fs fl pt t =
     (if t = pt then b + s
      else if yr t < yr pt then b + (s + (yr t - yr pt) * fs)
      else b + (s + (yr t - yr pt) * fl))"

subsection \<open>Example curves\<close>

text \<open>The default base curve of the application, and the same curve shifted by \<open>0.001\<close>.\<close>

definition default_base_curve :: curve where
  "default_base_curve =
     [(''3M'', Fin (30 / 1000)), (''6M'', Fin (31 / 1000)), (''1Y'', Fin (32 / 1000)),
      (''2Y'', Fin (34 / 1000)), (''3Y'', Fin (36 / 1000)), (''4Y'', Fin (38 / 1000)),
      (''5Y'', Fin (41 / 1000)), (''7Y'', Fin (45 / 1000))]"

definition shifted_default_curve :: curve where
  "shifted_default_curve =
     [(''3M'', Fin (31 / 1000)), (''6M'', Fin (32 / 1000)), (''1Y'', Fin (33 / 1000)),
      (''2Y'', Fin (35 / 1000)), (''3Y'', Fin (37 / 1000)), (''4Y'', Fin (39 / 1000)),
      (''5Y'', Fin (42 / 1000)), (''7Y'', Fin (46 / 1000))]"

text \<open>The default base curve without 7Y, and with NaN at 3M.\<close>

definition seven_tenor_curve :: curve where
  "seven_tenor_curve =
     [(''3M'', Fin (30 / 1000)), (''6M'', Fin (31 / 1000)), (''1Y'', Fin (32 / 1000)),
      (''2Y'', Fin (34 / 1000)), (''3Y'', Fin (36 / 1000)), (''4Y'', Fin (38 / 1000)),
      (''5Y'', Fin (41 / 1000))]"

definition nan_base_curve :: curve where
  "nan_base_curve =
     [(''3M'', NaN), (''6M'', Fin (31 / 1000)), (''1Y'', Fin (32 / 1000)),
      (''2Y'', Fin (34 / 1000)), (''3Y'', Fin (36 / 1000)), (''4Y'', Fin (38 / 1000)),
      (''5Y'', Fin (41 / 1000)), (''7Y'', Fin (45 / 1000))]"

text \<open>The flat curve in the order of the tenor table.\<close>

definition flat_curve :: "real \<Rightarrow> curve" where
  "flat_curve b = map (\<lambda>(t, y). (t, Fin b)) tenor_to_years"

text \<open>
  Simulated curves for a base curve of zeros: one that repeats \<open>1e-7\<close> on the short end,
  one that repeats \<open>0.5\<close> on the short end and \<open>4\<close> on the long end, and the one that
  \<^const>\<open>simulate_yield_curve\<close> returns for the pivot 1Y, the shift \<open>0\<close> and the factors
  \<open>2.4e-6\<close> and \<open>1\<close>.
\<close>

definition tiny_change_curve :: curve where
  "tiny_change_curve =
     [(''3M'', Fin (1 / 10000000)), (''6M'', Fin (1 / 10000000)), (''1Y'', Fin 0), (''2Y'', Fin 0),
      (''3Y'', Fin 0), (''4Y'', Fin 0), (''5Y'', Fin 0), (''7Y'', Fin 0)]"

definition capped_curve :: curve where
  "capped_curve =
     [(''3M'', Fin (1 / 2)), (''6M'', Fin (1 / 2)), (''1Y'', Fin 1), (''2Y'', Fin 2),
      (''3Y'', Fin 3), (''4Y'', Fin 4), (''5Y'', Fin 4), (''7Y'', Fin 4)]"

definition rounded_curve :: curve where
  "rounded_curve =
     [(''3M'', Fin (- (2 / 1000000))), (''6M'', Fin (- (1 / 1000000))), (''1Y'', Fin 0),
      (''2Y'', Fin 1), (''3Y'', Fin 2), (''4Y'', Fin 3), (''5Y'', Fin 4), (''7Y'', Fin 6)]"

section \<open>Auxiliary facts\<close>

subsection \<open>Errors, dicts and the tenor grid\<close>

lemma bnd_Inr [simp]: "bnd (Inr v) f = f v" by (simp add: bnd_def)
lemma bnd_Inl [simp]: "bnd (Inl e) f = Inl e" by (simp add: bnd_def)

lemma dict_get_Inr: "dict_get d k = Inr v \<longleftrightarrow> map_of d k = Some v"
  by (simp add: dict_get_def split: option.splits)

lemma dict_get_Inl: "dict_get d k = Inl e \<longleftrightarrow> e = KeyError \<and> k \<notin> set (map fst d)"
proof (cases "map_of d k")
  case None
  then have "k \<notin> fst ` set d" by (simp add: map_of_eq_None_iff)
  with None show ?thesis by (auto simp: dict_get_def)
next
  case (Some v)
  then have "k \<in> fst ` set d" by (metis map_of_eq_None_iff option.distinct(1))
  with Some show ?thesis by (simp add: dict_get_def)
qed

lemma update_fresh: "k \<notin> set (map fst al) \<Longrightarrow> AList.update k v al = al @ [(k, v)]"
  by (induction al) auto

lemma grid_year_cases:
  "map_of tenor_to_years t = Some ty \<Longrightarrow>
     (t, ty) \<in> {(''3M'', Fin (1 / 4)), (''6M'', Fin (1 / 2)), (''1Y'', Fin 1), (''2Y'', Fin 2),
      (''3Y'', Fin 3), (''4Y'', Fin 4), (''5Y'', Fin 5), (''7Y'', Fin 7)}"
  by (simp add: tenor_to_years_def split: if_splits)

lemma grid_year_fin: "map_of tenor_to_years t = Some ty \<Longrightarrow> is_fin ty"
  by (drule grid_year_cases) auto

lemma grid_year_inj:
  "map_of tenor_to_years t = Some ty \<Longrightarrow> map_of tenor_to_years t' = Some ty \<Longrightarrow> t = t'"
  by (drule grid_year_cases, drule grid_year_cases) auto

lemma in_grid_iff: "t \<in> set grid_tenors \<longleftrightarrow> (\<exists>ty. map_of tenor_to_years t = Some ty)"
  unfolding grid_tenors_def by (metis map_of_eq_None_iff not_None_eq set_map)

subsection \<open>The loop of simulate_yield_curve\<close>

lemma simulate_loop_map:
  "distinct (map fst acc @ map fst items) \<Longrightarrow> set (map fst items) \<subseteq> set grid_tenors \<Longrightarrow>
   simulate_loop pt py pr sv sf lf sc lc items acc =
     Inr (acc @ map (\<lambda>(k, r). (k, py_round (simulate_new_rate pt py pr sv sf lf sc lc k (year_of k) r) 6)) items)"
proof (induction items arbitrary: acc)
  case Nil
  then show ?case by simp
next
  case (Cons item items)
  obtain k r where item: "item = (k, r)" by (cases item)
  from Cons.prems item obtain ty where ty: "map_of tenor_to_years k = Some ty"
    by (auto simp: in_grid_iff)
  have fresh: "k \<notin> set (map fst acc)" using Cons.prems item by auto
  have d: "distinct (map fst (acc @ [(k, v)]) @ map fst items)" for v
    using Cons.prems item by auto
  show ?case using Cons.prems ty
    by (simp add: item dict_get_def update_fresh [OF fresh] Cons.IH [OF d] year_of_def)
qed

lemma map_of_map_keyed:
  "map_of (map (\<lambda>(k, r). (k, g k r)) xs) t = map_option (g t) (map_of xs t)"
  by (induction xs) auto


lemma simulate_yield_curve_map:
  assumes "distinct (map fst base)" "set (map fst base) \<subseteq> set grid_tenors"
    and "map_of tenor_to_years pivot = Some py" and "map_of base pivot = Some pr"
  shows "simulate_yield_curve base pivot sv sf lf sc lc =
     Inr (map (\<lambda>(k, r). (k, py_round (simulate_new_rate pivot py pr sv sf lf sc lc k (year_of k) r) 6)) base)"
  using assms by (simp add: simulate_yield_curve_def dict_get_def simulate_loop_map)

lemma total_curve_lookup:
  "total_curve c \<Longrightarrow> t \<in> set grid_tenors \<Longrightarrow> \<exists>r. map_of c t = Some r"
  unfolding total_curve_def by (metis map_of_eq_None_iff not_None_eq set_map)

subsection \<open>Order and rounding of floats\<close>

lemma flt_irrefl: "\<not> flt a a"
  by (cases a) auto

lemma flt_asym: "flt a b \<Longrightarrow> \<not> flt b a"
  by (cases a; cases b) auto

lemma round_half_even_mono: "x \<le> y \<Longrightarrow> round_half_even x \<le> round_half_even y"
proof -
  assume xy: "x \<le> y"
  have fx: "of_int \<lfloor>x\<rfloor> \<le> x" "x < of_int \<lfloor>x\<rfloor> + 1" by linarith+
  have fy: "of_int \<lfloor>y\<rfloor> \<le> y" "y < of_int \<lfloor>y\<rfloor> + 1" by linarith+
  have le: "\<lfloor>x\<rfloor> \<le> \<lfloor>y\<rfloor>" using xy by (rule floor_mono)
  show ?thesis
  proof (cases "\<lfloor>x\<rfloor> = \<lfloor>y\<rfloor>")
    case True
    then show ?thesis using xy by (auto simp: round_half_even_def Let_def)
  next
    case False
    then have "\<lfloor>x\<rfloor> + 1 \<le> \<lfloor>y\<rfloor>" using le by simp
    moreover have "round_half_even x \<le> \<lfloor>x\<rfloor> + 1" by (simp add: round_half_even_def Let_def)
    moreover have "\<lfloor>y\<rfloor> \<le> round_half_even y" by (simp add: round_half_even_def Let_def)
    ultimately show ?thesis by linarith
  qed
qed

lemma py_round_mono: "fle a b \<Longrightarrow> fle (py_round a n) (py_round b n)"
  by (cases a; cases b) (auto simp: divide_right_mono round_half_even_mono)

lemma fadd_mono: "is_fin r \<Longrightarrow> fle a b \<Longrightarrow> fle (fadd r a) (fadd r b)"
  by (cases r; cases a; cases b) auto

lemma py_max_mono: "is_fin x \<Longrightarrow> fle a b \<Longrightarrow> fle (py_max x a) (py_max x b)"
  by (cases x; cases a; cases b) (auto simp: py_max_def)

lemma is_fin_ops:
  "is_fin a \<Longrightarrow> is_fin b \<Longrightarrow> is_fin (fadd a b) \<and> is_fin (fsub a b) \<and> is_fin (fmul a b)"
  by (cases a; cases b) (auto simp: fsub_def)


lemma total_default: "total_curve default_base_curve"
  by (simp add: total_curve_def default_base_curve_def grid_tenors_def tenor_to_years_def)

lemma finite_default: "finite_curve default_base_curve"
  by (simp add: finite_curve_def default_base_curve_def)

subsection \<open>The loops of reverse_engineer_factors\<close>

lemma is_fin_iff: "is_fin v \<longleftrightarrow> v = Fin (real_of v)"
  by (cases v) auto

lemma finite_vals_fin: "list_all is_fin vs \<Longrightarrow> finite_vals vs = Inr (map real_of vs)"
proof (induction vs)
  case Nil
  then show ?case by simp
next
  case (Cons v vs)
  then show ?case by (cases v) auto
qed

lemma finite_vals_nonfin: "\<not> list_all is_fin vs \<Longrightarrow> finite_vals vs = Inl ValueError"
proof (induction vs)
  case Nil
  then show ?case by simp
next
  case (Cons v vs)
  then show ?case by (cases v; cases "list_all is_fin vs") (auto simp: finite_vals_fin)
qed

lemma year_of_fin: "t \<in> set grid_tenors \<Longrightarrow> is_fin (year_of t)"
  by (auto simp: in_grid_iff year_of_def dest: grid_year_fin)

lemma year_of_inj: "t \<in> set grid_tenors \<Longrightarrow> t' \<in> set grid_tenors \<Longrightarrow> year_of t = year_of t' \<Longrightarrow> t = t'"
  by (auto simp: in_grid_iff year_of_def dest: grid_year_inj)

lemma flt_total_fin: "is_fin a \<Longrightarrow> is_fin b \<Longrightarrow> a \<noteq> b \<Longrightarrow> \<not> flt a b \<Longrightarrow> flt b a"
  by (cases a; cases b) auto

lemma regression_loop_char:
  assumes "\<forall>t\<in>set ks. t \<noteq> pt \<longrightarrow> t \<in> set grid_tenors \<and> t \<in> set (map fst base) \<and> t \<in> set (map fst sim)"
  shows "regression_loop base sim pt py bp sv ks (sx, sy, lx, ly) =
     Inr (sx @ map (\<lambda>t. fsub (year_of t) py) (filter (\<lambda>t. t \<noteq> pt \<and> flt (year_of t) py) ks),
          sy @ map (\<lambda>t. fsub (rate_of sim t) (fadd bp sv)) (filter (\<lambda>t. t \<noteq> pt \<and> flt (year_of t) py) ks),
          lx @ map (\<lambda>t. fsub (year_of t) py) (filter (\<lambda>t. t \<noteq> pt \<and> \<not> flt (year_of t) py) ks),
          ly @ map (\<lambda>t. fsub (rate_of sim t) (fadd bp sv)) (filter (\<lambda>t. t \<noteq> pt \<and> \<not> flt (year_of t) py) ks))"
  using assms
proof (induction ks arbitrary: sx sy lx ly)
  case Nil
  then show ?case by simp
next
  case (Cons t ks)
  show ?case
  proof (cases "t = pt")
    case True
    then show ?thesis using Cons by simp
  next
    case False
    with Cons.prems obtain ty b s where "map_of tenor_to_years t = Some ty"
      "map_of base t = Some b" "map_of sim t = Some s"
      by (metis in_grid_iff list.set_intros(1) map_of_eq_None_iff not_None_eq set_map)
    then show ?thesis using False Cons
      by (simp add: dict_get_def year_of_def rate_of_def)
  qed
qed

lemma changes_loop_char:
  assumes "\<forall>t\<in>set ks. t \<noteq> pt \<longrightarrow> t \<in> set grid_tenors \<and> t \<in> set (map fst sim)"
    and "distinct (map fst acc @ map year_of (filter (\<lambda>t. t \<noteq> pt) ks))"
  shows "changes_loop sim pt bp ks acc =
     Inr (acc @ map (\<lambda>t. (year_of t, fsub (rate_of sim t) bp)) (filter (\<lambda>t. t \<noteq> pt) ks))"
  using assms
proof (induction ks arbitrary: acc)
  case Nil
  then show ?case by simp
next
  case (Cons t ks)
  show ?case
  proof (cases "t = pt")
    case True
    then show ?thesis using Cons by simp
  next
    case False
    with Cons.prems obtain ty s where l: "map_of tenor_to_years t = Some ty" "map_of sim t = Some s"
      by (metis in_grid_iff list.set_intros(1) map_of_eq_None_iff not_None_eq set_map)
    have fresh: "year_of t \<notin> set (map fst acc)" using Cons.prems(2) False by auto
    have d: "distinct (map fst (acc @ [(year_of t, v)]) @ map year_of (filter (\<lambda>t. t \<noteq> pt) ks))" for v
      using Cons.prems(2) False by auto
    have p: "\<forall>t\<in>set ks. t \<noteq> pt \<longrightarrow> t \<in> set grid_tenors \<and> t \<in> set (map fst sim)"
      using Cons.prems(1) by simp
    show ?thesis using False l update_fresh [OF fresh] Cons.IH [OF p d]
      by (simp add: dict_get_def year_of_def rate_of_def)
  qed
qed

lemma count_loop_char:
  "count_loop py items (s, l) =
     (foldl incr s (map (\<lambda>(k, c). py_round c 8) (filter (\<lambda>(k, c). flt k py) items)),
      foldl incr l (map (\<lambda>(k, c). py_round c 8) (filter (\<lambda>(k, c). \<not> flt k py \<and> flt py k) items)))"
proof (induction items arbitrary: s l)
  case Nil
  then show ?case by simp
next
  case (Cons item items)
  then show ?case by (cases item) simp
qed

subsection \<open>The counting dict\<close>

lemma uniq_snoc: "uniq (xs @ [x]) = (if x \<in> set xs then uniq xs else uniq xs @ [x])"
  by (simp add: uniq_def)

lemma set_uniq [simp]: "set (uniq xs) = set xs"
  by (simp add: uniq_def)

lemma find_snoc:
  "find P (xs @ [x]) = (case find P xs of None \<Rightarrow> (if P x then Some x else None) | Some y \<Rightarrow> Some y)"
  by (induction xs) auto

lemma find_uniq: "find P (uniq xs) = find P xs"
proof (induction xs rule: rev_induct)
  case Nil
  then show ?case by (simp add: uniq_def)
next
  case (snoc x xs)
  show ?case
  proof (cases "x \<in> set xs")
    case True
    then have "find P xs = None \<Longrightarrow> \<not> P x" by (auto simp: find_None_iff)
    then show ?thesis using True snoc by (auto simp: uniq_snoc find_snoc split: option.splits)
  next
    case False
    then show ?thesis using snoc by (simp add: uniq_snoc find_snoc)
  qed
qed

lemma distinct_uniq [simp]: "distinct (uniq xs)"
  by (simp add: uniq_def)

lemma update_map_keyed:
  "distinct us \<Longrightarrow> k \<in> set us \<Longrightarrow>
   AList.update k w (map (\<lambda>v. (v, f v)) us) = map (\<lambda>v. (v, if v = k then w else f v)) us"
proof (induction us)
  case Nil
  then show ?case by simp
next
  case (Cons u us)
  show ?case
  proof (cases "u = k")
    case True
    then have "k \<notin> set us" using Cons.prems by simp
    then have "map (\<lambda>v. (v, if v = k then w else f v)) us = map (\<lambda>v. (v, f v)) us"
      by (intro map_cong) auto
    then show ?thesis using True by simp
  next
    case False
    then show ?thesis using Cons by simp
  qed
qed

lemma map_of_count_dict:
  "map_of (count_dict xs) x = (if x \<in> set xs then Some (count_list xs x) else None)"
  by (simp add: count_dict_def map_of_map_restrict restrict_map_def)

lemma incr_count_dict: "incr (count_dict xs) x = count_dict (xs @ [x])"
proof (cases "x \<in> set xs")
  case True
  have "incr (count_dict xs) x = AList.update x (count_list xs x + 1) (count_dict xs)"
    using True by (simp add: incr_def map_of_count_dict)
  also have "\<dots> = map (\<lambda>v. (v, if v = x then count_list xs x + 1 else count_list xs v)) (uniq xs)"
    unfolding count_dict_def using True by (intro update_map_keyed) simp_all
  also have "\<dots> = map (\<lambda>v. (v, count_list (xs @ [x]) v)) (uniq xs)"
    by (intro map_cong) auto
  finally show ?thesis using True by (simp add: count_dict_def uniq_snoc)
next
  case False
  have "incr (count_dict xs) x = AList.update x 1 (count_dict xs)"
    using False by (simp add: incr_def map_of_count_dict)
  also have "\<dots> = count_dict xs @ [(x, 1)]"
    using False by (intro update_fresh) (simp add: count_dict_def comp_def)
  also have "\<dots> = map (\<lambda>v. (v, count_list (xs @ [x]) v)) (uniq xs) @ [(x, 1)]"
    unfolding count_dict_def using False by (intro arg_cong2 [where f = append] map_cong) auto
  finally show ?thesis using False by (simp add: count_dict_def uniq_snoc)
qed

lemma foldl_incr: "foldl incr [] xs = count_dict xs"
proof (induction xs rule: rev_induct)
  case Nil
  then show ?case by (simp add: count_dict_def uniq_def)
next
  case (snoc x xs)
  then show ?case by (simp add: incr_count_dict)
qed

lemma find_map_keyed:
  "find (\<lambda>(v, c). P c) (map (\<lambda>v. (v, g v)) us) = map_option (\<lambda>v. (v, g v)) (find (\<lambda>v. P (g v)) us)"
  by (induction us) auto

lemma next_repeated_count:
  "next_repeated (foldl incr [] vals) dflt = (case first_repeated vals of None \<Rightarrow> dflt | Some v \<Rightarrow> v)"
proof -
  have "find (\<lambda>(v, c). 1 < c) (count_dict vals) =
      map_option (\<lambda>v. (v, count_list vals v)) (find (\<lambda>v. 1 < count_list vals v) vals)"
    unfolding count_dict_def by (simp add: find_map_keyed find_uniq)
  then show ?thesis
    by (simp add: next_repeated_def foldl_incr first_repeated_def split: option.splits)
qed

subsection \<open>The result of reverse_engineer_factors\<close>

lemma filter_short:
  "filter (\<lambda>t. t \<noteq> pt \<and> flt (year_of t) (year_of pt)) ks = filter (\<lambda>t. flt (year_of t) (year_of pt)) ks"
  by (intro filter_cong) (auto simp: flt_irrefl)

lemma filter_long:
  assumes "set ks \<subseteq> set grid_tenors" "pt \<in> set grid_tenors"
  shows "filter (\<lambda>t. t \<noteq> pt \<and> \<not> flt (year_of t) (year_of pt)) ks = filter (\<lambda>t. flt (year_of pt) (year_of t)) ks"
proof (intro filter_cong refl)
  fix t assume "t \<in> set ks"
  then have t: "t \<in> set grid_tenors" using assms by auto
  show "(t \<noteq> pt \<and> \<not> flt (year_of t) (year_of pt)) = flt (year_of pt) (year_of t)"
  proof
    assume a: "t \<noteq> pt \<and> \<not> flt (year_of t) (year_of pt)"
    then have "year_of t \<noteq> year_of pt" using year_of_inj [OF t assms(2)] by auto
    then show "flt (year_of pt) (year_of t)"
      using a year_of_fin [OF t] year_of_fin [OF assms(2)] by (intro flt_total_fin) auto
  next
    assume "flt (year_of pt) (year_of t)"
    then show "t \<noteq> pt \<and> \<not> flt (year_of t) (year_of pt)"
      by (auto simp: flt_irrefl flt_asym)
  qed
qed

lemma fit_fin:
  "xs \<noteq> [] \<Longrightarrow> LinearRegression_fit_coef (map Fin xs) (map Fin ys) = Inr (Fin (ols_slope xs ys))"
  by (simp add: LinearRegression_fit_coef_def finite_vals_fin list_all_iff comp_def)

lemma fit_fin_map:
  "T \<noteq> [] \<Longrightarrow> LinearRegression_fit_coef (map (Fin \<circ> f) T) (map (Fin \<circ> g) T) =
     Inr (Fin (ols_slope (map f T) (map g T)))"
  using fit_fin [of "map f T" "map g T"] by simp

lemma fsub_Fin [simp]: "fsub (Fin a) (Fin b) = Fin (a - b)"
  by (simp add: fsub_def)

lemma count_loop_keyed:
  "count_loop py (map (\<lambda>t. (year_of t, g t)) ks) ([], []) =
     (foldl incr [] (map (\<lambda>t. py_round (g t) 8) (filter (\<lambda>t. flt (year_of t) py) ks)),
      foldl incr [] (map (\<lambda>t. py_round (g t) 8)
         (filter (\<lambda>t. \<not> flt (year_of t) py \<and> flt py (year_of t)) ks)))"
  unfolding count_loop_char by (simp add: filter_map comp_def)

lemma recover_char:
  assumes dist: "distinct (map fst base)"
    and grid: "set (map fst base) \<subseteq> set grid_tenors"
    and bp: "map_of base pt = Some (Fin bp)"
    and sp: "map_of sim pt = Some (Fin sp)"
    and sim: "\<forall>t\<in>set (map fst base). t \<in> set (map fst sim) \<and> is_fin (rate_of sim t)"
  shows "reverse_engineer_factors base sim pt =
    Inr \<lparr>pivot_tenor = pt,
         shift_value = py_round (Fin (sp - bp)) 6,
         short_end_factor = py_round (Fin (if short_tenors base pt = [] then 0
            else ols_slope (map (\<lambda>t. yr t - yr pt) (short_tenors base pt))
                   (map (\<lambda>t. real_of (rate_of sim t) - sp) (short_tenors base pt)))) 6,
         long_end_factor = py_round (Fin (if long_tenors base pt = [] then 0
            else ols_slope (map (\<lambda>t. yr t - yr pt) (long_tenors base pt))
                   (map (\<lambda>t. real_of (rate_of sim t) - sp) (long_tenors base pt)))) 6,
         short_end_cap = py_round (case first_repeated
              (map (\<lambda>t. py_round (fsub (rate_of sim t) (Fin bp)) 8) (short_tenors base pt))
            of None \<Rightarrow> NInf | Some v \<Rightarrow> v) 6,
         long_end_cap = py_round (case first_repeated
              (map (\<lambda>t. py_round (fsub (rate_of sim t) (Fin bp)) 8) (long_tenors base pt))
            of None \<Rightarrow> PInf | Some v \<Rightarrow> v) 6\<rparr>"
proof -
  let ?ks = "map fst base"
  let ?S = "short_tenors base pt" and ?L = "long_tenors base pt"
  let ?py = "year_of pt"
  have ptk: "pt \<in> set ?ks" using bp by (metis map_of_eq_None_iff option.distinct(1) set_map)
  then have ptg: "pt \<in> set grid_tenors" using grid by auto
  then obtain py where py: "map_of tenor_to_years pt = Some py" by (auto simp: in_grid_iff)
  then have py': "py = ?py" by (simp add: year_of_def)
  have pyfin: "?py = Fin (yr pt)" using year_of_fin [OF ptg] by (simp add: is_fin_iff yr_def)
  have pre1: "\<forall>t\<in>set ?ks. t \<noteq> pt \<longrightarrow> t \<in> set grid_tenors \<and> t \<in> set (map fst base) \<and> t \<in> set (map fst sim)"
    using grid sim by auto
  have S: "filter (\<lambda>t. t \<noteq> pt \<and> flt (year_of t) ?py) ?ks = ?S"
    by (simp add: filter_short short_tenors_def)
  have L: "filter (\<lambda>t. t \<noteq> pt \<and> \<not> flt (year_of t) ?py) ?ks = ?L"
    using filter_long [OF grid ptg] by (simp add: long_tenors_def)
  have Ssub: "set ?S \<subseteq> set ?ks" and Lsub: "set ?L \<subseteq> set ?ks"
    by (auto simp: short_tenors_def long_tenors_def)
  have dx: "map (\<lambda>t. fsub (year_of t) ?py) T = map Fin (map (\<lambda>t. yr t - yr pt) T)"
    if "set T \<subseteq> set ?ks" for T
  proof -
    have "fsub (year_of t) ?py = Fin (yr t - yr pt)" if "t \<in> set T" for t
    proof -
      from that \<open>set T \<subseteq> set ?ks\<close> grid have "t \<in> set grid_tenors" by auto
      then have "year_of t = Fin (yr t)" using year_of_fin by (simp add: is_fin_iff yr_def)
      then show ?thesis by (simp add: pyfin)
    qed
    then show ?thesis by (simp add: comp_def)
  qed
  have dy: "map (\<lambda>t. fsub (rate_of sim t) (fadd (Fin bp) (Fin (sp - bp)))) T
      = map Fin (map (\<lambda>t. real_of (rate_of sim t) - sp) T)"
    if "set T \<subseteq> set ?ks" for T
  proof -
    have "fsub (rate_of sim t) (fadd (Fin bp) (Fin (sp - bp))) = Fin (real_of (rate_of sim t) - sp)"
      if "t \<in> set T" for t
    proof -
      from that \<open>set T \<subseteq> set ?ks\<close> sim have "rate_of sim t = Fin (real_of (rate_of sim t))"
        by (auto simp: is_fin_iff [symmetric])
      then have "fsub (rate_of sim t) (fadd (Fin bp) (Fin (sp - bp)))
          = fsub (Fin (real_of (rate_of sim t))) (Fin sp)" by simp
      then show ?thesis by simp
    qed
    then show ?thesis by (simp add: comp_def)
  qed
  have reg: "regression_loop base sim pt ?py (Fin bp) (Fin (sp - bp)) ?ks ([], [], [], []) =
      Inr (map Fin (map (\<lambda>t. yr t - yr pt) ?S), map Fin (map (\<lambda>t. real_of (rate_of sim t) - sp) ?S),
           map Fin (map (\<lambda>t. yr t - yr pt) ?L), map Fin (map (\<lambda>t. real_of (rate_of sim t) - sp) ?L))"
    using regression_loop_char [OF pre1, of ?py "Fin bp" "Fin (sp - bp)" "[]" "[]" "[]" "[]"]
    unfolding S L using dx [OF Ssub] dx [OF Lsub] dy [OF Ssub] dy [OF Lsub] by simp
  have pre2: "\<forall>t\<in>set ?ks. t \<noteq> pt \<longrightarrow> t \<in> set grid_tenors \<and> t \<in> set (map fst sim)"
    using pre1 by blast
  have "inj_on year_of (set ?ks)" using grid by (auto intro!: inj_onI dest: year_of_inj)
  with dist have "distinct (map year_of ?ks)" by (rule distinct_map [THEN iffD2, OF conjI])
  then have d2: "distinct (map fst ([] :: (pyfloat \<times> pyfloat) list) @ map year_of (filter (\<lambda>t. t \<noteq> pt) ?ks))"
    by (simp add: distinct_map_filter)
  have chg: "changes_loop sim pt (Fin bp) ?ks [] =
      Inr (map (\<lambda>t. (year_of t, fsub (rate_of sim t) (Fin bp))) (filter (\<lambda>t. t \<noteq> pt) ?ks))"
    using changes_loop_char [OF pre2 d2] by simp
  have cnt: "count_loop ?py (map (\<lambda>t. (year_of t, fsub (rate_of sim t) (Fin bp))) (filter (\<lambda>t. t \<noteq> pt) ?ks)) ([], [])
      = (foldl incr [] (map (\<lambda>t. py_round (fsub (rate_of sim t) (Fin bp)) 8) ?S),
         foldl incr [] (map (\<lambda>t. py_round (fsub (rate_of sim t) (Fin bp)) 8) ?L))"
  proof -
    have a: "filter (\<lambda>t. flt (year_of t) ?py) (filter (\<lambda>t. t \<noteq> pt) ?ks) = ?S"
      using S by (simp add: conj_commute)
    have "filter (\<lambda>t. \<not> flt (year_of t) ?py \<and> flt ?py (year_of t)) (filter (\<lambda>t. t \<noteq> pt) ?ks)
        = filter (\<lambda>t. flt ?py (year_of t)) ?ks"
      unfolding filter_filter by (intro filter_cong) (auto simp: flt_irrefl flt_asym)
    then have b: "filter (\<lambda>t. \<not> flt (year_of t) ?py \<and> flt ?py (year_of t)) (filter (\<lambda>t. t \<noteq> pt) ?ks) = ?L"
      by (simp add: long_tenors_def)
    show ?thesis
      unfolding count_loop_keyed a b ..
  qed
  have g1: "dict_get tenor_to_years pt = Inr ?py" using py py' by (simp add: dict_get_def)
  have g2: "dict_get base pt = Inr (Fin bp)" using bp by (simp add: dict_get_def)
  have g3: "dict_get sim pt = Inr (Fin sp)" using sp by (simp add: dict_get_def)
  show ?thesis
    unfolding reverse_engineer_factors_def
    by (simp add: g1 g2 g3 reg chg cnt fit_fin_map next_repeated_count Let_def del: py_round.simps)
qed

lemma finite_curve_rate: "finite_curve c \<Longrightarrow> map_of c t = Some v \<Longrightarrow> is_fin v"
  by (auto simp: finite_curve_def list_all_iff dest: map_of_SomeD)

lemma total_finite_rate:
  assumes "total_curve c" "finite_curve c" "t \<in> set grid_tenors"
  shows "map_of c t = Some (Fin (real_of (rate_of c t)))"
proof -
  from total_curve_lookup [OF assms(1,3)] obtain v where v: "map_of c t = Some v" ..
  then have "is_fin v" using assms(2) by (rule finite_curve_rate [rotated])
  then show ?thesis using v by (simp add: rate_of_def is_fin_iff [symmetric])
qed

lemma recover_on_curves:
  assumes tb: "total_curve base" and ts: "total_curve sim"
    and fb: "finite_curve base" and fs: "finite_curve sim"
    and pt: "pt \<in> set grid_tenors"
  shows "reverse_engineer_factors base sim pt =
    Inr \<lparr>pivot_tenor = pt,
         shift_value = py_round (fsub (rate_of sim pt) (rate_of base pt)) 6,
         short_end_factor = py_round (Fin (if short_tenors base pt = [] then 0
            else ols_slope (map (\<lambda>t. yr t - yr pt) (short_tenors base pt))
                   (map (\<lambda>t. real_of (rate_of sim t) - real_of (rate_of sim pt)) (short_tenors base pt)))) 6,
         long_end_factor = py_round (Fin (if long_tenors base pt = [] then 0
            else ols_slope (map (\<lambda>t. yr t - yr pt) (long_tenors base pt))
                   (map (\<lambda>t. real_of (rate_of sim t) - real_of (rate_of sim pt)) (long_tenors base pt)))) 6,
         short_end_cap = py_round (case first_repeated
              (map (\<lambda>t. py_round (fsub (rate_of sim t) (rate_of base pt)) 8) (short_tenors base pt))
            of None \<Rightarrow> NInf | Some v \<Rightarrow> v) 6,
         long_end_cap = py_round (case first_repeated
              (map (\<lambda>t. py_round (fsub (rate_of sim t) (rate_of base pt)) 8) (long_tenors base pt))
            of None \<Rightarrow> PInf | Some v \<Rightarrow> v) 6\<rparr>"
proof -
  have bp: "map_of base pt = Some (Fin (real_of (rate_of base pt)))"
    using tb fb pt by (rule total_finite_rate)
  have sp: "map_of sim pt = Some (Fin (real_of (rate_of sim pt)))"
    using ts fs pt by (rule total_finite_rate)
  have bpe: "rate_of base pt = Fin (real_of (rate_of base pt))"
    using bp unfolding rate_of_def by (metis option.sel)
  have spe: "rate_of sim pt = Fin (real_of (rate_of sim pt))"
    using sp unfolding rate_of_def by (metis option.sel)
  have d: "distinct (map fst base)" and g: "set (map fst base) \<subseteq> set grid_tenors"
    using tb by (auto simp: total_curve_def)
  have s: "\<forall>t\<in>set (map fst base). t \<in> set (map fst sim) \<and> is_fin (rate_of sim t)"
  proof
    fix t assume "t \<in> set (map fst base)"
    then have tg: "t \<in> set grid_tenors" using g by auto
    then have "t \<in> set (map fst sim)" using ts by (simp add: total_curve_def)
    moreover have "is_fin (rate_of sim t)"
      using total_finite_rate [OF ts fs tg] unfolding rate_of_def by (metis option.sel is_fin.simps(1))
    ultimately show "t \<in> set (map fst sim) \<and> is_fin (rate_of sim t)" ..
  qed
  have sh: "fsub (rate_of sim pt) (rate_of base pt) = Fin (real_of (rate_of sim pt) - real_of (rate_of base pt))"
    by (subst spe, subst bpe) (rule fsub_Fin)
  show ?thesis
    unfolding sh using recover_char [OF d g bp sp s] bpe by simp
qed

subsection \<open>Example curves\<close>

lemma total_flat: "total_curve (flat_curve b)"
  by (simp add: total_curve_def flat_curve_def grid_tenors_def tenor_to_years_def)

lemma finite_flat: "finite_curve (flat_curve b)"
  by (simp add: finite_curve_def flat_curve_def tenor_to_years_def)

lemma total_tiny: "total_curve tiny_change_curve"
  by (simp add: total_curve_def tiny_change_curve_def grid_tenors_def tenor_to_years_def)

lemma finite_tiny: "finite_curve tiny_change_curve"
  by (simp add: finite_curve_def tiny_change_curve_def)

lemma total_capped: "total_curve capped_curve"
  by (simp add: total_curve_def capped_curve_def grid_tenors_def tenor_to_years_def)

lemma finite_capped: "finite_curve capped_curve"
  by (simp add: finite_curve_def capped_curve_def)

lemma grid_2Y: "''2Y'' \<in> set grid_tenors"
  by (simp add: grid_tenors_def tenor_to_years_def)

lemma short_2Y_flat: "short_tenors (flat_curve b) ''2Y'' = [''3M'', ''6M'', ''1Y'']"
  by (simp add: short_tenors_def flat_curve_def tenor_to_years_def year_of_def)

lemma long_2Y_flat: "long_tenors (flat_curve b) ''2Y'' = [''3Y'', ''4Y'', ''5Y'', ''7Y'']"
  by (simp add: long_tenors_def flat_curve_def tenor_to_years_def year_of_def)

lemma py_round_zero: "py_round (Fin 0) n = Fin 0"
  by (simp add: round_half_even_def)

lemma grid_set: "set grid_tenors = {''3M'', ''6M'', ''1Y'', ''2Y'', ''3Y'', ''4Y'', ''5Y'', ''7Y''}"
  by (simp add: grid_tenors_def tenor_to_years_def)

lemma grid_3M: "''3M'' \<in> set grid_tenors" and grid_7Y: "''7Y'' \<in> set grid_tenors"
  and grid_6M: "''6M'' \<in> set grid_tenors" and grid_5Y: "''5Y'' \<in> set grid_tenors"
  by (simp_all add: grid_set)

lemma total_years: "total_curve tenor_to_years"
  by (simp add: total_curve_def grid_tenors_def tenor_to_years_def)

lemma finite_years: "finite_curve tenor_to_years"
  by (simp add: finite_curve_def tenor_to_years_def)

subsection \<open>Sides with fewer than two tenors\<close>

lemma first_repeated_short: "length xs < 2 \<Longrightarrow> first_repeated xs = None"
proof -
  assume "length xs < 2"
  then have "\<not> 1 < count_list xs v" for v
    using count_le_length [of xs v] by simp
  then show ?thesis by (simp add: first_repeated_def find_None_iff)
qed

lemma short_few:
  assumes "total_curve base" and "pt = ''3M'' \<or> pt = ''6M''"
  shows "length (short_tenors base pt) < 2"
proof -
  have d: "distinct (map fst base)" and g: "set (map fst base) = set grid_tenors"
    using assms(1) by (auto simp: total_curve_def)
  have "{t. flt (year_of t) (year_of pt)} \<inter> set grid_tenors \<subseteq> {''3M''}"
    using assms(2) by (auto simp: grid_set year_of_def tenor_to_years_def)
  then have "card ({t. flt (year_of t) (year_of pt)} \<inter> set grid_tenors) \<le> card {''3M''}"
    by (intro card_mono) auto
  then show ?thesis
    unfolding short_tenors_def distinct_length_filter [OF d] g by simp
qed

lemma long_few:
  assumes "total_curve base" and "pt = ''5Y'' \<or> pt = ''7Y''"
  shows "length (long_tenors base pt) < 2"
proof -
  have d: "distinct (map fst base)" and g: "set (map fst base) = set grid_tenors"
    using assms(1) by (auto simp: total_curve_def)
  have "{t. flt (year_of pt) (year_of t)} \<inter> set grid_tenors \<subseteq> {''7Y''}"
    using assms(2) by (auto simp: grid_set year_of_def tenor_to_years_def)
  then have "card ({t. flt (year_of pt) (year_of t)} \<inter> set grid_tenors) \<le> card {''7Y''}"
    by (intro card_mono) auto
  then show ?thesis
    unfolding long_tenors_def distinct_length_filter [OF d] g by simp
qed

subsection \<open>Missing tenors\<close>

lemma simulate_keys:
  assumes "distinct (map fst base)" "set (map fst base) \<subseteq> set grid_tenors"
    and "pt \<in> set grid_tenors" and "pt \<in> set (map fst base)"
  shows "\<exists>c. simulate_yield_curve base pt sv sf lf sc lc = Inr c \<and> map fst c = map fst base"
proof -
  from assms(3) obtain py where py: "map_of tenor_to_years pt = Some py"
    by (auto simp: in_grid_iff)
  from assms(4) obtain pr where pr: "map_of base pt = Some pr"
    by (metis map_of_eq_None_iff not_None_eq set_map)
  have "map fst (map (\<lambda>(k, r). (k, g k r)) base) = map fst base" for g :: "string \<Rightarrow> pyfloat \<Rightarrow> pyfloat"
    by (induction base) auto
  then show ?thesis
    using simulate_yield_curve_map [OF assms(1,2) py pr] by simp
qed

lemma regression_loop_missing:
  assumes "\<forall>t\<in>set ks. t \<in> set grid_tenors \<and> t \<in> set (map fst base)"
    and "\<exists>t\<in>set ks. t \<noteq> pt \<and> t \<notin> set (map fst sim)"
  shows "regression_loop base sim pt py bp sv ks acc = Inl KeyError"
  using assms
proof (induction ks arbitrary: acc)
  case Nil
  then show ?case by simp
next
  case (Cons t ks)
  obtain sx sy lx ly where acc: "acc = (sx, sy, lx, ly)" by (cases acc) auto
  show ?case
  proof (cases "t = pt")
    case True
    then show ?thesis using Cons by (simp add: acc)
  next
    case False
    from Cons.prems(1) obtain ty b where l: "map_of tenor_to_years t = Some ty" "map_of base t = Some b"
      by (metis in_grid_iff list.set_intros(1) map_of_eq_None_iff not_None_eq set_map)
    show ?thesis
    proof (cases "map_of sim t")
      case None
      then show ?thesis using False l by (simp add: acc dict_get_def)
    next
      case (Some s)
      then have "t \<in> set (map fst sim)" by (metis map_of_eq_None_iff option.distinct(1) set_map)
      with Cons.prems have "\<exists>t\<in>set ks. t \<noteq> pt \<and> t \<notin> set (map fst sim)" by auto
      then show ?thesis using False l Some Cons.IH Cons.prems(1)
        by (simp add: acc dict_get_def)
    qed
  qed
qed

lemma seven_keys: "distinct (map fst seven_tenor_curve)" "set (map fst seven_tenor_curve) \<subseteq> set grid_tenors"
  by (simp_all add: seven_tenor_curve_def grid_set)

lemma default_keys: "distinct (map fst default_base_curve)" "set (map fst default_base_curve) \<subseteq> set grid_tenors"
  using total_default by (simp_all add: total_curve_def)

subsection \<open>Non-finite regression data\<close>

lemma fit_nonfin: "\<not> list_all is_fin y \<Longrightarrow> LinearRegression_fit_coef X y = Inl ValueError"
  by (cases "list_all is_fin X")
    (simp_all add: LinearRegression_fit_coef_def finite_vals_fin finite_vals_nonfin)

lemma fit_result:
  "LinearRegression_fit_coef X y = Inl ValueError \<or> (\<exists>c. LinearRegression_fit_coef X y = Inr c)"
  by (cases "list_all is_fin X"; cases "list_all is_fin y")
    (simp_all add: LinearRegression_fit_coef_def finite_vals_fin finite_vals_nonfin)

lemma implied_nonfin:
  "\<not> is_fin bp \<or> \<not> is_fin sp \<or> \<not> is_fin st \<Longrightarrow> \<not> is_fin (fsub st (fadd bp (fsub sp bp)))"
  by (cases bp; cases sp; cases st) (auto simp: fsub_def)

lemma recover_value_error:
  assumes dist: "distinct (map fst base)"
    and grid: "set (map fst base) \<subseteq> set grid_tenors"
    and bp: "map_of base pt = Some bp"
    and sp: "map_of sim pt = Some sp"
    and sim: "set (map fst base) \<subseteq> set (map fst sim)"
    and bad: "\<exists>t\<in>set (map fst base). t \<noteq> pt \<and> \<not> is_fin (fsub (rate_of sim t) (fadd bp (fsub sp bp)))"
  shows "reverse_engineer_factors base sim pt = Inl ValueError"
proof -
  define ks where "ks = map fst base"
  let ?py = "year_of pt"
  let ?Y = "\<lambda>t. fsub (rate_of sim t) (fadd bp (fsub sp bp))"
  let ?X = "\<lambda>t. fsub (year_of t) ?py"
  let ?S = "filter (\<lambda>t. t \<noteq> pt \<and> flt (year_of t) ?py) ks"
  let ?L = "filter (\<lambda>t. t \<noteq> pt \<and> \<not> flt (year_of t) ?py) ks"
  have ptk: "pt \<in> set ks" using bp unfolding ks_def by (metis map_of_eq_None_iff option.distinct(1) set_map)
  then have ptg: "pt \<in> set grid_tenors" using grid unfolding ks_def by auto
  then have g1: "dict_get tenor_to_years pt = Inr ?py"
    by (auto simp: in_grid_iff dict_get_def year_of_def)
  have g2: "dict_get base pt = Inr bp" using bp by (simp add: dict_get_def)
  have g3: "dict_get sim pt = Inr sp" using sp by (simp add: dict_get_def)
  have pre: "\<forall>t\<in>set ks. t \<noteq> pt \<longrightarrow> t \<in> set grid_tenors \<and> t \<in> set (map fst base) \<and> t \<in> set (map fst sim)"
    using grid sim unfolding ks_def by auto
  have reg: "regression_loop base sim pt ?py bp (fsub sp bp) ks ([], [], [], []) =
      Inr (map ?X ?S, map ?Y ?S, map ?X ?L, map ?Y ?L)"
    using regression_loop_char [OF pre, of ?py bp "fsub sp bp" "[]" "[]" "[]" "[]"] by simp
  from bad obtain t where t: "t \<in> set ks" "t \<noteq> pt" "\<not> is_fin (?Y t)"
    unfolding ks_def by blast
  define A where "A = (if map ?X ?S \<noteq> [] then bnd (LinearRegression_fit_coef (map ?X ?S) (map ?Y ?S))
      (\<lambda>c. Inr (Some c)) else Inr None)"
  define B where "B = (if map ?X ?L \<noteq> [] then bnd (LinearRegression_fit_coef (map ?X ?L) (map ?Y ?L))
      (\<lambda>c. Inr (Some c)) else Inr None)"
  have A_cases: "A = Inl ValueError \<or> (\<exists>m. A = Inr m)"
    using fit_result [of "map ?X ?S" "map ?Y ?S"] unfolding A_def by auto
  have B_cases: "B = Inl ValueError \<or> (\<exists>m. B = Inr m)"
    using fit_result [of "map ?X ?L" "map ?Y ?L"] unfolding B_def by auto
  have "A = Inl ValueError \<or> B = Inl ValueError"
  proof (cases "flt (year_of t) ?py")
    case True
    then have "t \<in> set ?S" using t by simp
    then have "\<not> list_all is_fin (map ?Y ?S)" and "map ?X ?S \<noteq> []"
      using t(3) by (auto simp: list_all_iff filter_empty_conv)
    then have "A = Inl ValueError" unfolding A_def by (simp add: fit_nonfin)
    then show ?thesis ..
  next
    case False
    then have "t \<in> set ?L" using t by simp
    then have "\<not> list_all is_fin (map ?Y ?L)" and "map ?X ?L \<noteq> []"
      using t(3) by (auto simp: list_all_iff filter_empty_conv)
    then have "B = Inl ValueError" unfolding B_def by (simp add: fit_nonfin)
    then show ?thesis ..
  qed
  then have "bnd A (\<lambda>sm. bnd B (\<lambda>lm. F sm lm)) = Inl ValueError" for F :: "pyfloat option \<Rightarrow> pyfloat option \<Rightarrow> error + recovered_factors"
    using A_cases by auto
  then show ?thesis
    unfolding reverse_engineer_factors_def A_def B_def ks_def [symmetric]
    by (simp add: g1 g2 g3 reg Let_def del: py_round.simps)
qed

lemma total_curve_rate: "total_curve c \<Longrightarrow> t \<in> set grid_tenors \<Longrightarrow> map_of c t = Some (rate_of c t)"
  using total_curve_lookup [of c t] by (auto simp: rate_of_def)

lemma other_grid_tenor: "\<exists>t\<in>set grid_tenors. t \<noteq> pt"
  by (cases "pt = ''3M''") (auto simp: grid_set)

lemma total_nan: "total_curve nan_base_curve"
  by (simp add: total_curve_def nan_base_curve_def grid_tenors_def tenor_to_years_def)

subsection \<open>Rounding error\<close>

lemma round_half_even_bound: "\<bar>of_int (round_half_even x) - x\<bar> \<le> 1 / 2"
proof -
  have "of_int \<lfloor>x\<rfloor> \<le> x" "x < of_int \<lfloor>x\<rfloor> + 1" by linarith+
  then show ?thesis by (auto simp: round_half_even_def Let_def)
qed

lemma close_to_py_round: "close_to (py_round (Fin x) 6) x"
proof -
  have "\<bar>of_int (round_half_even (x * 10 ^ 6)) - x * 10 ^ 6\<bar> \<le> 1 / 2"
    by (rule round_half_even_bound)
  then have "\<bar>of_int (round_half_even (x * 10 ^ 6)) / 10 ^ 6 - x\<bar> \<le> 1 / 2 / 10 ^ 6"
    by (simp add: field_simps abs_le_iff)
  then show ?thesis by (simp add: close_to_def)
qed

lemma exact6_int: "exact6 x \<Longrightarrow> \<exists>k::int. x = of_int k / 10 ^ 6"
  unfolding exact6_def by (metis py_round.simps(1) pyfloat.inject)

lemma exact6_apart:
  assumes "exact6 x" "exact6 y" "x \<noteq> y"
  shows "1 / 10 ^ 6 \<le> \<bar>x - y\<bar>"
proof -
  from assms(1,2) obtain k l :: int where k: "x = of_int k / 10 ^ 6" and l: "y = of_int l / 10 ^ 6"
    by (blast dest: exact6_int)
  have "k \<noteq> l" using assms(3) k l by auto
  then have "1 \<le> \<bar>k - l\<bar>" by linarith
  then have "(1::real) \<le> \<bar>of_int k - of_int l\<bar>" by (metis of_int_1_le_iff of_int_abs of_int_diff)
  moreover have "\<bar>x - y\<bar> = \<bar>of_int k - of_int l\<bar> / 10 ^ 6"
    unfolding k l by (simp add: diff_divide_distrib [symmetric])
  ultimately show ?thesis by (simp add: divide_right_mono)
qed

lemma round8_apart:
  assumes "1 / 10 ^ 6 \<le> \<bar>x - y\<bar>"
  shows "py_round (Fin x) 8 \<noteq> py_round (Fin y) 8"
proof
  define X Y where "X = x * 10 ^ 8" and "Y = y * 10 ^ 8"
  assume "py_round (Fin x) 8 = py_round (Fin y) 8"
  then have e: "round_half_even X = round_half_even Y" by (simp add: X_def Y_def)
  have "\<bar>of_int (round_half_even X) - X\<bar> \<le> 1 / 2" "\<bar>of_int (round_half_even Y) - Y\<bar> \<le> 1 / 2"
    by (rule round_half_even_bound)+
  then have le: "\<bar>X - Y\<bar> \<le> 1" unfolding e by linarith
  define d where "d = \<bar>x - y\<bar>"
  have "X - Y = (x - y) * 100000000" by (simp add: X_def Y_def algebra_simps)
  then have eq: "\<bar>X - Y\<bar> = d * 100000000" by (simp only: abs_mult abs_numeral d_def)
  have "1 / 1000000 \<le> d" using assms by (simp add: d_def)
  then have "100 \<le> d * 100000000" by simp
  then have "100 \<le> \<bar>X - Y\<bar>" by (simp only: eq)
  with le show False by linarith
qed

lemma count_list_distinct: "distinct xs \<Longrightarrow> count_list xs v \<le> 1"
  by (induction xs) (auto simp: count_list_0_iff)

lemma first_repeated_distinct: "distinct xs \<Longrightarrow> first_repeated xs = None"
proof -
  assume "distinct xs"
  then have "\<not> 1 < count_list xs v" for v
    using count_list_distinct [of xs v] by simp
  then show ?thesis by (simp add: first_repeated_def find_None_iff)
qed

subsection \<open>The slope of an exact line\<close>

lemma zip_map_self: "zip xs (map g xs) = map (\<lambda>x. (x, g x)) xs"
  by (induction xs) auto

lemma sum_list_scale: "sum_list (map (\<lambda>x. f * g x) xs) = f * sum_list (map g xs)" for f :: real
  by (induction xs) (auto simp: algebra_simps)

lemma two_distinct_not_all_equal:
  assumes "distinct xs" "2 \<le> length xs"
  shows "\<exists>x\<in>set xs. x \<noteq> m"
proof -
  from assms(2) obtain a b ys where xs: "xs = a # b # ys"
    by (cases xs; cases "tl xs") auto
  then have "a \<noteq> b" using assms(1) by auto
  then have "a \<noteq> m \<or> b \<noteq> m" by auto
  then show ?thesis using xs by auto
qed

lemma ols_slope_line:
  assumes "distinct xs" "2 \<le> length xs"
  shows "ols_slope xs (map (\<lambda>x. f * x) xs) = f"
proof -
  define mx where "mx = mean xs"
  define sxx where "sxx = sum_list (map (\<lambda>x. (x - mx) * (x - mx)) xs)"
  have n: "real (length xs) \<noteq> 0" using assms(2) by auto
  have "sum_list (map (\<lambda>x. f * x) xs) = f * sum_list xs"
    using sum_list_scale [of f "\<lambda>x. x" xs] by simp
  then have my: "mean (map (\<lambda>x. f * x) xs) = f * mx"
    by (simp add: mean_def mx_def)
  have "sum_list (map (\<lambda>(x, y). (x - mx) * (y - f * mx)) (zip xs (map (\<lambda>x. f * x) xs)))
      = sum_list (map (\<lambda>x. f * ((x - mx) * (x - mx))) xs)"
    unfolding zip_map_self by (simp add: comp_def algebra_simps)
  also have "\<dots> = f * sxx" unfolding sxx_def by (rule sum_list_scale)
  finally have sxy: "sum_list (map (\<lambda>(x, y). (x - mx) * (y - f * mx)) (zip xs (map (\<lambda>x. f * x) xs)))
      = f * sxx" .
  from two_distinct_not_all_equal [OF assms] obtain x where x: "x \<in> set xs" "x \<noteq> mx" by blast
  have "sxx \<noteq> 0"
  proof
    assume "sxx = 0"
    then have "\<forall>v\<in>set (map (\<lambda>x. (x - mx) * (x - mx)) xs). v = 0"
      unfolding sxx_def by (subst (asm) sum_list_nonneg_eq_0_iff) auto
    then have "(x - mx) * (x - mx) = 0" using x(1) by auto
    then show False using x(2) by simp
  qed
  then show ?thesis
    unfolding ols_slope_def Let_def my mx_def [symmetric] sxy sxx_def [symmetric] by simp
qed

subsection \<open>Simulation of a flat curve\<close>

lemma year_of_yr: "t \<in> set grid_tenors \<Longrightarrow> year_of t = Fin (yr t)"
  using year_of_fin [of t] by (simp add: is_fin_iff yr_def)

lemma yr_inj: "t \<in> set grid_tenors \<Longrightarrow> t' \<in> set grid_tenors \<Longrightarrow> yr t = yr t' \<Longrightarrow> t = t'"
  using year_of_inj [of t t'] by (simp add: year_of_yr)

lemma map_of_map_const:
  "map_of (map (\<lambda>(k, r). (k, g k)) xs) t = (if t \<in> set (map fst xs) then Some (g t) else None)"
  by (induction xs) auto

lemma flat_new_rate:
  assumes "t \<in> set grid_tenors" "pt \<in> set grid_tenors"
  shows "simulate_new_rate pt (year_of pt) (Fin b) (Fin s) (Fin fs) (Fin fl) NInf PInf t (year_of t) (Fin b)
     = Fin (sim_value b s fs fl pt t)"
  by (simp add: simulate_new_rate_def year_of_yr [OF assms(1)] year_of_yr [OF assms(2)]
      sim_value_def py_max_def py_min_def)

lemma simulate_flat:
  assumes flat: "flat_base base b" and pt: "pt \<in> set grid_tenors"
    and ex: "\<forall>t\<in>set grid_tenors. exact6 (sim_value b s fs fl pt t)"
  shows "simulate_yield_curve base pt (Fin s) (Fin fs) (Fin fl) NInf PInf =
     Inr (map (\<lambda>(k, r). (k, Fin (sim_value b s fs fl pt k))) base)"
proof -
  have tot: "total_curve base" and vals: "\<And>k v. (k, v) \<in> set base \<Longrightarrow> v = Fin b"
    using flat by (auto simp: flat_base_def list_all_iff)
  have d: "distinct (map fst base)" and g: "set (map fst base) \<subseteq> set grid_tenors"
    using tot by (auto simp: total_curve_def)
  from pt obtain py where py: "map_of tenor_to_years pt = Some py" by (auto simp: in_grid_iff)
  then have py': "py = year_of pt" by (simp add: year_of_def)
  from total_curve_lookup [OF tot pt] obtain pr where pr: "map_of base pt = Some pr" ..
  then have pr': "pr = Fin b" using vals by (auto dest: map_of_SomeD)
  have "map (\<lambda>(k, r). (k, py_round (simulate_new_rate pt py pr (Fin s) (Fin fs) (Fin fl) NInf PInf
          k (year_of k) r) 6)) base
      = map (\<lambda>(k, r). (k, Fin (sim_value b s fs fl pt k))) base"
  proof (intro map_cong refl)
    fix x assume x: "x \<in> set base"
    obtain k r where kr: "x = (k, r)" by (cases x)
    have r: "r = Fin b" using x kr vals by auto
    have kg: "k \<in> set grid_tenors" using x kr g by force
    have "py_round (Fin (sim_value b s fs fl pt k)) 6 = Fin (sim_value b s fs fl pt k)"
      using ex kg by (auto simp: exact6_def)
    then show "(case x of (k, r) \<Rightarrow> (k, py_round (simulate_new_rate pt py pr (Fin s) (Fin fs) (Fin fl)
          NInf PInf k (year_of k) r) 6)) = (case x of (k, r) \<Rightarrow> (k, Fin (sim_value b s fs fl pt k)))"
      unfolding kr r py' pr' by (simp only: prod.case flat_new_rate [OF kg pt])
  qed
  then show ?thesis using simulate_yield_curve_map [OF d g py pr] by simp
qed

lemma flat_base_flat: "flat_base (flat_curve b) b"
  by (simp add: flat_base_def total_flat) (simp add: flat_curve_def tenor_to_years_def)

subsection \<open>Results on partial base curves and empty samples\<close>

lemma recover_returns:
  assumes "distinct (map fst base)" and "set (map fst base) \<subseteq> set grid_tenors"
    and "pt \<in> set (map fst base)" and "is_fin (rate_of base pt)"
    and "list_all (\<lambda>t. t \<in> set (map fst sim) \<and> is_fin (rate_of sim t)) (map fst base)"
  shows "\<exists>r. reverse_engineer_factors base sim pt = Inr r"
proof -
  have s: "\<forall>t\<in>set (map fst base). t \<in> set (map fst sim) \<and> is_fin (rate_of sim t)"
    using assms(5) by (simp add: list_all_iff)
  from assms(3) obtain v where v: "map_of base pt = Some v"
    by (metis map_of_eq_None_iff not_None_eq set_map)
  then have "rate_of base pt = v" by (simp add: rate_of_def)
  then have bp: "map_of base pt = Some (Fin (real_of v))"
    using assms(4) v by (simp add: is_fin_iff)
  from s assms(3) have "pt \<in> set (map fst sim)" and f: "is_fin (rate_of sim pt)" by auto
  then obtain w where w: "map_of sim pt = Some w"
    by (metis map_of_eq_None_iff not_None_eq set_map)
  then have "rate_of sim pt = w" by (simp add: rate_of_def)
  then have sp: "map_of sim pt = Some (Fin (real_of w))"
    using f w by (simp add: is_fin_iff)
  show ?thesis using recover_char [OF assms(1,2) bp sp s] by simp
qed

lemma fit_empty: "LinearRegression_fit_coef [] y = Inl ValueError"
  by (simp add: LinearRegression_fit_coef_def)

section \<open>Properties of the two transforms\<close>

subsection \<open>The simulated rates\<close>



subsection \<open>The round trip through both transforms\<close>




text \<open>
  The tolerance fails on a flat curve when the simulated rates are rounded: with
  \<open>f_short = 2.4e-6\<close> and the pivot 1Y the two short-end rates are rounded to \<open>-2e-6\<close>
  and \<open>-1e-6\<close>, and the recovered factor is \<open>4e-6\<close>.
\<close>

lemma round_trip_rounding:
  "simulate_yield_curve (flat_curve 0) ''1Y'' (Fin 0) (Fin (24 / 10000000)) (Fin 1) NInf PInf =
     Inr rounded_curve \<and>
   reverse_engineer_factors (flat_curve 0) rounded_curve ''1Y'' =
     Inr \<lparr>pivot_tenor = ''1Y'', shift_value = Fin 0, short_end_factor = Fin (4 / 1000000),
          long_end_factor = Fin 1, short_end_cap = NInf, long_end_cap = PInf\<rparr>"
proof
  show "simulate_yield_curve (flat_curve 0) ''1Y'' (Fin 0) (Fin (24 / 10000000)) (Fin 1) NInf PInf =
     Inr rounded_curve"
    by (simp add: simulate_yield_curve_def flat_curve_def rounded_curve_def
        tenor_to_years_def dict_get_def
        simulate_new_rate_def fsub_def py_max_def py_min_def round_half_even_def)
  show "reverse_engineer_factors (flat_curve 0) rounded_curve ''1Y'' =
     Inr \<lparr>pivot_tenor = ''1Y'', shift_value = Fin 0, short_end_factor = Fin (4 / 1000000),
          long_end_factor = Fin 1, short_end_cap = NInf, long_end_cap = PInf\<rparr>"
    by (simp add: reverse_engineer_factors_def flat_curve_def rounded_curve_def
        tenor_to_years_def dict_get_def LinearRegression_fit_coef_def ols_slope_def mean_def
        incr_def next_repeated_def round_half_even_def Let_def)
qed

text \<open>
  On the default base curve of the application, which is not flat, a parallel shift comes
  back with the factors \<open>0.002571\<close> and \<open>0.002286\<close>: the regression is run on
  \<open>sim_rate - (base_pivot_rate + shift_value)\<close>, so the slope of the base curve itself is
  counted as a factor (\<open>base_rate\<close> is read in the loop and never used).
\<close>

lemma round_trip_default_curve:
  "simulate_yield_curve default_base_curve ''2Y'' (Fin (1 / 1000)) (Fin 0) (Fin 0) NInf PInf =
     Inr shifted_default_curve \<and>
   reverse_engineer_factors default_base_curve shifted_default_curve ''2Y'' =
     Inr \<lparr>pivot_tenor = ''2Y'', shift_value = Fin (1 / 1000),
          short_end_factor = Fin (2571 / 1000000), long_end_factor = Fin (1143 / 500000),
          short_end_cap = NInf, long_end_cap = PInf\<rparr>"
proof
  show "simulate_yield_curve default_base_curve ''2Y'' (Fin (1 / 1000)) (Fin 0) (Fin 0) NInf PInf =
     Inr shifted_default_curve"
    by (simp add: simulate_yield_curve_def default_base_curve_def shifted_default_curve_def
        tenor_to_years_def dict_get_def
        simulate_new_rate_def fsub_def py_max_def py_min_def round_half_even_def)
  show "reverse_engineer_factors default_base_curve shifted_default_curve ''2Y'' =
     Inr \<lparr>pivot_tenor = ''2Y'', shift_value = Fin (1 / 1000),
          short_end_factor = Fin (2571 / 1000000), long_end_factor = Fin (1143 / 500000),
          short_end_cap = NInf, long_end_cap = PInf\<rparr>"
    by (simp add: reverse_engineer_factors_def default_base_curve_def shifted_default_curve_def
        tenor_to_years_def dict_get_def LinearRegression_fit_coef_def ols_slope_def mean_def
        incr_def next_repeated_def round_half_even_def Let_def)
qed

subsection \<open>The recovered caps\<close>




subsection \<open>Curves that omit a tenor\<close>




subsection \<open>Non-finite inputs\<close>




subsection \<open>The rate at the pivot\<close>



subsection \<open>Monotonicity in the short-end cap\<close>

text \<open>
  Claim C7. For a base curve over the grid with real rates, real \<open>shift_value\<close> and
  \<open>short_end_factor\<close>, and any \<open>long_end_factor\<close> and \<open>long_end_cap\<close>: if
  \<open>cap1 <= cap2\<close> then at every tenor with a year fraction below the pivot's the rate
  simulated with \<open>short_end_cap = cap1\<close> is at most the rate simulated with
  \<open>short_end_cap = cap2\<close>. The caps may be infinite.
\<close>

theorem short_cap_monotone:
  assumes "total_curve base" and "finite_curve base"
    and "dict_get tenor_to_years pivot = Inr py" and "is_fin sv" and "is_fin sf"
    and "fle cap1 cap2"
    and "dict_get tenor_to_years t = Inr ty" and "flt ty py"
  shows "\<exists>sim1 sim2 r1 r2.
           simulate_yield_curve base pivot sv sf lf cap1 lc = Inr sim1 \<and>
           simulate_yield_curve base pivot sv sf lf cap2 lc = Inr sim2 \<and>
           dict_get sim1 t = Inr r1 \<and> dict_get sim2 t = Inr r2 \<and> fle r1 r2"
proof -
  from assms(3) have py: "map_of tenor_to_years pivot = Some py" by (simp add: dict_get_Inr)
  from assms(7) have ty: "map_of tenor_to_years t = Some ty" by (simp add: dict_get_Inr)
  have "pivot \<in> set grid_tenors" "t \<in> set grid_tenors" using py ty by (auto simp: in_grid_iff)
  with assms(1) obtain pr r where pr: "map_of base pivot = Some pr" and r: "map_of base t = Some r"
    by (blast dest: total_curve_lookup)
  have "(t, r) \<in> set base" using r by (rule map_of_SomeD)
  with assms(2) have fr: "is_fin r" by (auto simp: finite_curve_def list_all_iff)
  have ne: "t \<noteq> pivot" using py ty assms(8) by (auto simp: flt_irrefl)
  let ?g = "\<lambda>cap k r. py_round (simulate_new_rate pivot py pr sv sf lf cap lc k (year_of k) r) 6"
  have sim: "simulate_yield_curve base pivot sv sf lf cap lc = Inr (map (\<lambda>(k, r). (k, ?g cap k r)) base)" for cap
    using assms(1) py pr by (intro simulate_yield_curve_map) (auto simp: total_curve_def)
  have get: "dict_get (map (\<lambda>(k, r). (k, ?g cap k r)) base) t
      = Inr (py_round (fadd r (py_max (fadd sv (fmul (fsub ty py) sf)) cap)) 6)" for cap
    using r ne ty assms(8) by (simp add: dict_get_def map_of_map_keyed simulate_new_rate_def year_of_def)
  have "is_fin (fsub ty py)" using grid_year_fin [OF ty] grid_year_fin [OF py] by (simp add: is_fin_ops)
  then have "is_fin (fadd sv (fmul (fsub ty py) sf))" using assms(4,5) by (simp add: is_fin_ops)
  then have "fle (py_max (fadd sv (fmul (fsub ty py) sf)) cap1) (py_max (fadd sv (fmul (fsub ty py) sf)) cap2)"
    using assms(6) by (rule py_max_mono)
  then have "fle (py_round (fadd r (py_max (fadd sv (fmul (fsub ty py) sf)) cap1)) 6)
                 (py_round (fadd r (py_max (fadd sv (fmul (fsub ty py) sf)) cap2)) 6)"
    using fr by (intro py_round_mono fadd_mono)
  then show ?thesis using sim get by blast
qed

theorem short_cap_monotone_witness:
  "total_curve default_base_curve \<and> finite_curve default_base_curve \<and>
   dict_get tenor_to_years ''2Y'' = Inr (Fin 2) \<and> is_fin (Fin (1 / 1000)) \<and> is_fin (Fin (2 / 1000)) \<and>
   fle NInf (Fin 0) \<and> dict_get tenor_to_years ''1Y'' = Inr (Fin 1) \<and> flt (Fin 1) (Fin 2) \<and>
   (\<exists>sim1 sim2 r1 r2.
      simulate_yield_curve default_base_curve ''2Y'' (Fin (1 / 1000)) (Fin (2 / 1000))
        (Fin (3 / 1000)) NInf (Fin (15 / 10000)) = Inr sim1 \<and>
      simulate_yield_curve default_base_curve ''2Y'' (Fin (1 / 1000)) (Fin (2 / 1000))
        (Fin (3 / 1000)) (Fin 0) (Fin (15 / 10000)) = Inr sim2 \<and>
      dict_get sim1 ''1Y'' = Inr r1 \<and> dict_get sim2 ''1Y'' = Inr r2 \<and> fle r1 r2)"
proof -
  have p: "dict_get tenor_to_years ''2Y'' = Inr (Fin 2)"
    and t: "dict_get tenor_to_years ''1Y'' = Inr (Fin 1)"
    by (simp_all add: dict_get_def tenor_to_years_def)
  have f1: "is_fin (Fin (1 / 1000))" and f2: "is_fin (Fin (2 / 1000))"
    and c: "fle NInf (Fin 0)" and l: "flt (Fin 1) (Fin 2)"
    by simp_all
  show ?thesis
    using short_cap_monotone [OF total_default finite_default p f1 f2 c t l,
        of "Fin (3 / 1000)" "Fin (15 / 10000)"] total_default finite_default p t
    by simp
qed


subsection \<open>A side without tenors\<close>



subsection \<open>The recovered shift\<close>



subsection \<open>No cap on a side with fewer than two tenors\<close>



end
